theory Spec2Isabelle
  imports Main "HOL-Library.Word"
begin

unbundle bit_operations_syntax

section \<open>The precise object scanner of the block-based collector (gc_precise.go)\<close>

text \<open>
  The native word type \<open>uintptr\<close> is \<open>'a word\<close>; its width \<open>LENGTH('a)\<close> is the
  constant \<open>unsafe.Sizeof(layout) * 8\<close> of the source. An \<open>unsafe.Pointer\<close> is the
  address it holds, also an \<open>'a word\<close>, with \<open>nil\<close> the address \<open>0\<close>;
  \<open>unsafe.Add\<close> is addition on addresses, which wraps around. The size of a native
  word in bytes, \<open>unsafe.Sizeof(uintptr(0))\<close>, is \<open>LENGTH('a) div 8\<close>.
\<close>

subsection \<open>What the scanner uses from the rest of the runtime\<close>

text \<open>
  The scanner uses declarations of other files of the runtime: the constant
  \<open>gcAsserts\<close>, the methods \<open>findHead\<close> and \<open>address\<close> of a block, the predicate
  \<open>isOnHeap\<close>, and the memory it reads through raw pointers: \<open>load_uintptr p\<close> is
  \<open>*(*uintptr)(p)\<close> and \<open>load_uint8 p\<close> is \<open>*(*uint8)(p)\<close>, two reads of the same
  memory, whose byte order the scanner does not depend on. They are the fields of
  one parameter. A block (\<open>gcBlock\<close>) is a native word.
\<close>

record (overloaded) 'a runtime =
  gcAsserts :: bool
  findHead :: "'a word \<Rightarrow> 'a word"
  address :: "'a word \<Rightarrow> 'a word"
  isOnHeap :: "'a word \<Rightarrow> bool"
  load_uintptr :: "'a word \<Rightarrow> 'a word"
  load_uint8 :: "'a word \<Rightarrow> 8 word"

subsection \<open>The scanner\<close>

text \<open>The struct \<open>gcObjectScanner\<close>; its field \<open>size\<close> is \<open>size_w\<close> here.\<close>

record (overloaded) 'a gcObjectScanner =
  index :: "'a word"
  size_w :: "'a word"
  bitmap :: "'a word"
  bitmapAddr :: "'a word"

text \<open>The two calls of \<open>runtimePanic\<close>; neither returns.\<close>

datatype panic = ScannerNotAtHead | UnknownPointerSize

text \<open>The \<open>switch layoutBits\<close> of the decoder; \<open>None\<close> is its \<open>default\<close> case.\<close>

definition sizeFieldBits :: "nat \<Rightarrow> nat option" where
  "sizeFieldBits layoutBits =
     (if layoutBits = 16 then Some 4
      else if layoutBits = 32 then Some 5
      else if layoutBits = 64 then Some 6
      else None)"

text \<open>
  \<open>newGCObjectScanner\<close>. The scanner starts as the zero value of the struct; each
  branch sets the fields the source sets. The mask \<open>1<<sizeFieldBits - 1\<close> is
  \<open>(1 << sizeFieldBits) - 1\<close> on native words.
\<close>

definition newGCObjectScanner ::
  "'a::len runtime \<Rightarrow> 'a word \<Rightarrow> panic + 'a gcObjectScanner" where
  "newGCObjectScanner rt block =
     (if gcAsserts rt \<and> block \<noteq> findHead rt block then Inl ScannerNotAtHead
      else
        let scanner = \<lparr>index = 0, size_w = 0, bitmap = 0, bitmapAddr = 0\<rparr>;
            layout = load_uintptr rt (address rt block)
        in if layout = 0 then
             Inr (scanner\<lparr>size_w := 1, bitmap := 1\<rparr>)
           else if layout AND 1 \<noteq> 0 then
             (case sizeFieldBits LENGTH('a) of
                None \<Rightarrow> Inl UnknownPointerSize
              | Some s \<Rightarrow>
                  Inr (scanner\<lparr>size_w := drop_bit 1 layout AND (push_bit s 1 - 1),
                               bitmap := drop_bit (1 + s) layout\<rparr>))
           else
             Inr (scanner\<lparr>size_w := load_uintptr rt layout,
                          bitmapAddr := layout + of_nat (LENGTH('a) div 8)\<rparr>))"

text \<open>
  \<open>pointerFree\<close>. The receiver is a pointer to the scanner, so the scanner is
  returned with the result.
\<close>

definition pointerFree :: "'a::len gcObjectScanner \<Rightarrow> bool \<times> 'a gcObjectScanner" where
  "pointerFree scanner =
     (if bitmapAddr scanner \<noteq> 0 then (False, scanner)
      else (bitmap scanner = 0, scanner))"

text \<open>
  \<open>nextIsPointer\<close>: the result and the scanner after the call. \<open>scanner.index++\<close>
  wraps around as addition on words does; a right shift by the width or more gives
  \<open>0\<close> in Go and with \<open>drop_bit\<close>.
\<close>

definition nextIsPointer ::
  "'a::len runtime \<Rightarrow> 'a gcObjectScanner \<Rightarrow> 'a word \<Rightarrow> 'a word \<Rightarrow> 'a word
     \<Rightarrow> bool \<times> 'a gcObjectScanner" where
  "nextIsPointer rt scanner0 word parent addrOfWord =
     (let index0 = index scanner0;
          scanner1 = scanner0\<lparr>index := index scanner0 + 1\<rparr>;
          scanner = (if index scanner1 = size_w scanner1
                     then scanner1\<lparr>index := 0\<rparr> else scanner1)
      in if \<not> isOnHeap rt word then (False, scanner)
         else if bitmapAddr scanner \<noteq> 0 then
           (if drop_bit (unat (index0 mod 8))
                  (load_uint8 rt (bitmapAddr scanner + index0 div 8)) AND 1 = 0
            then (False, scanner)
            else (True, scanner))
         else if drop_bit (unat index0) (bitmap scanner) AND 1 = 0 then (False, scanner)
         else (True, scanner))"

text \<open>
  The collector calls \<open>nextIsPointer\<close> once for each word of an object, in order.
  \<open>scanWords\<close> is that sequence of calls on a list of arguments
  \<open>(word, parent, addrOfWord)\<close>: the results in order, and the scanner after the last
  call.
\<close>

fun scanWords ::
  "'a::len runtime \<Rightarrow> 'a gcObjectScanner \<Rightarrow> ('a word \<times> 'a word \<times> 'a word) list
     \<Rightarrow> bool list \<times> 'a gcObjectScanner" where
  "scanWords rt scanner [] = ([], scanner)"
| "scanWords rt scanner ((word, parent, addrOfWord) # rest) =
     (let (r, scanner') = nextIsPointer rt scanner word parent addrOfWord;
          (rs, scanner'') = scanWords rt scanner' rest
      in (r # rs, scanner''))"

subsection \<open>Raw reads that fault\<close>

text \<open>
  The scanner reads memory through raw pointers: the layout word of the object, the
  size word of an external descriptor and, in \<open>nextIsPointer\<close>, a byte of its bitmap.
  Such a read ends the process with a memory fault when the address is not readable
  memory. \<open>mapped\<close> says which byte addresses hold memory; nothing is readable at
  \<open>nil\<close>. \<open>readable mapped p n\<close>: the \<open>n\<close> bytes from \<open>p\<close> can be read.
\<close>

datatype failure = Panic panic | MemoryFault

definition readable :: "('a::len word \<Rightarrow> bool) \<Rightarrow> 'a word \<Rightarrow> nat \<Rightarrow> bool" where
  "readable mapped p n = list_all (\<lambda>k. p + of_nat k \<noteq> 0 \<and> mapped (p + of_nat k)) [0..<n]"

definition read_uintptr ::
  "('a::len word \<Rightarrow> bool) \<Rightarrow> 'a runtime \<Rightarrow> 'a word \<Rightarrow> failure + 'a word" where
  "read_uintptr mapped rt p =
     (if readable mapped p (LENGTH('a) div 8) then Inr (load_uintptr rt p) else Inl MemoryFault)"

definition read_uint8 ::
  "('a::len word \<Rightarrow> bool) \<Rightarrow> 'a runtime \<Rightarrow> 'a word \<Rightarrow> failure + 8 word" where
  "read_uint8 mapped rt p =
     (if readable mapped p 1 then Inr (load_uint8 rt p) else Inl MemoryFault)"

text \<open>
  The decoder, the classifier and the sequence of calls once more, with each raw read
  able to fault; everything else is as above. \<open>pointerFree\<close> reads only the scanner.
\<close>

definition newGCObjectScanner_mem ::
  "('a::len word \<Rightarrow> bool) \<Rightarrow> 'a runtime \<Rightarrow> 'a word \<Rightarrow> failure + 'a gcObjectScanner" where
  "newGCObjectScanner_mem mapped rt block =
     (if gcAsserts rt \<and> block \<noteq> findHead rt block then Inl (Panic ScannerNotAtHead)
      else
        let scanner = \<lparr>index = 0, size_w = 0, bitmap = 0, bitmapAddr = 0\<rparr>
        in case read_uintptr mapped rt (address rt block) of
             Inl fault \<Rightarrow> Inl fault
           | Inr layout \<Rightarrow>
               if layout = 0 then
                 Inr (scanner\<lparr>size_w := 1, bitmap := 1\<rparr>)
               else if layout AND 1 \<noteq> 0 then
                 (case sizeFieldBits LENGTH('a) of
                    None \<Rightarrow> Inl (Panic UnknownPointerSize)
                  | Some s \<Rightarrow>
                      Inr (scanner\<lparr>size_w := drop_bit 1 layout AND (push_bit s 1 - 1),
                                   bitmap := drop_bit (1 + s) layout\<rparr>))
               else
                 (case read_uintptr mapped rt layout of
                    Inl fault \<Rightarrow> Inl fault
                  | Inr n \<Rightarrow>
                      Inr (scanner\<lparr>size_w := n,
                                   bitmapAddr := layout + of_nat (LENGTH('a) div 8)\<rparr>)))"

definition nextIsPointer_mem ::
  "('a::len word \<Rightarrow> bool) \<Rightarrow> 'a runtime \<Rightarrow> 'a gcObjectScanner \<Rightarrow> 'a word \<Rightarrow> 'a word
     \<Rightarrow> 'a word \<Rightarrow> failure + bool \<times> 'a gcObjectScanner" where
  "nextIsPointer_mem mapped rt scanner0 word parent addrOfWord =
     (let index0 = index scanner0;
          scanner1 = scanner0\<lparr>index := index scanner0 + 1\<rparr>;
          scanner = (if index scanner1 = size_w scanner1
                     then scanner1\<lparr>index := 0\<rparr> else scanner1)
      in if \<not> isOnHeap rt word then Inr (False, scanner)
         else if bitmapAddr scanner \<noteq> 0 then
           (case read_uint8 mapped rt (bitmapAddr scanner + index0 div 8) of
              Inl fault \<Rightarrow> Inl fault
            | Inr byte \<Rightarrow>
                if drop_bit (unat (index0 mod 8)) byte AND 1 = 0 then Inr (False, scanner)
                else Inr (True, scanner))
         else if drop_bit (unat index0) (bitmap scanner) AND 1 = 0 then Inr (False, scanner)
         else Inr (True, scanner))"

fun scanWords_mem ::
  "('a::len word \<Rightarrow> bool) \<Rightarrow> 'a runtime \<Rightarrow> 'a gcObjectScanner
     \<Rightarrow> ('a word \<times> 'a word \<times> 'a word) list \<Rightarrow> failure + bool list \<times> 'a gcObjectScanner" where
  "scanWords_mem mapped rt scanner [] = Inr ([], scanner)"
| "scanWords_mem mapped rt scanner ((word, parent, addrOfWord) # rest) =
     (case nextIsPointer_mem mapped rt scanner word parent addrOfWord of
        Inl fault \<Rightarrow> Inl fault
      | Inr (r, scanner') \<Rightarrow>
          (case scanWords_mem mapped rt scanner' rest of
             Inl fault \<Rightarrow> Inl fault
           | Inr (rs, scanner'') \<Rightarrow> Inr (r # rs, scanner'')))"

subsection \<open>The cursor\<close>

text \<open>
  What one call of \<open>nextIsPointer\<close> does to the scanner (the first five lines of its
  body), and the number of calls after which the cursor of a fresh scanner is back
  at \<open>0\<close>: \<open>size\<close>, or the whole range of the native word when \<open>size\<close> is \<open>0\<close>,
  where the cursor is only reset by wrapping around.
\<close>

definition advance :: "'a::len gcObjectScanner \<Rightarrow> 'a gcObjectScanner" where
  "advance scanner =
     scanner\<lparr>index := (if index scanner + 1 = size_w scanner then 0 else index scanner + 1)\<rparr>"

definition period :: "'a::len gcObjectScanner \<Rightarrow> nat" where
  "period scanner = (if size_w scanner = 0 then 2 ^ LENGTH('a) else unat (size_w scanner))"

subsection \<open>Example inputs\<close>

text \<open>
  A runtime with assertions off, every block its own head, blocks of 16 bytes from
  address \<open>0x100\<close>, the heap from \<open>0x100\<close> to \<open>0x200\<close>, and the memory given.
\<close>

definition example_runtime ::
  "('a word \<Rightarrow> 'a word) \<Rightarrow> ('a word \<Rightarrow> 8 word) \<Rightarrow> 'a::len runtime" where
  "example_runtime words bytes =
     \<lparr>gcAsserts = False, findHead = (\<lambda>block. block),
      address = (\<lambda>block. 0x100 + 16 * block),
      isOnHeap = (\<lambda>ptr. 0x100 \<le> ptr \<and> ptr < 0x200),
      load_uintptr = words, load_uint8 = bytes\<rparr>"

text \<open>
  Scenario B of the specification: the layout word \<open>1 | (3 << 1) | (0b101 << 7) = 647\<close>
  of the object in block \<open>0\<close>, on 64 bits.
\<close>

definition scenarioB :: "64 runtime" where
  "scenarioB = example_runtime (\<lambda>p. if p = 0x100 then 647 else 0) (\<lambda>p. 0)"

text \<open>
  Scenario C of the specification: the layout word of block \<open>0\<close> is the address
  \<open>0x1000\<close> of a descriptor of size \<open>8\<close> with the bitmap byte \<open>0b00000101\<close>.
\<close>

definition externalEight :: "64 runtime" where
  "externalEight = example_runtime (\<lambda>p. if p = 0x100 then 0x1000 else if p = 0x1000 then 8 else 0)
       (\<lambda>p. if p = 0x1008 then 5 else 0)"

text \<open>Scenario A of the specification: the layout word is \<open>0\<close>, on 64 bits.\<close>

definition scenarioA :: "64 runtime" where
  "scenarioA = example_runtime (\<lambda>p. 0) (\<lambda>p. 0)"

text \<open>
  On 16 bits, the odd layout word \<open>1 | (0 << 1) | (1 << 5) = 33\<close>: its size field is
  \<open>0\<close> and its bitmap is \<open>1\<close>.
\<close>

definition sizeZeroInline :: "16 runtime" where
  "sizeZeroInline = example_runtime (\<lambda>p. if p = 0x100 then 33 else 0) (\<lambda>p. 0)"

text \<open>On 64 bits, the odd layout word \<open>1\<close>: size field \<open>0\<close>, bitmap \<open>0\<close>.\<close>

definition sizeZeroLayout :: "64 runtime" where
  "sizeZeroLayout = example_runtime (\<lambda>p. if p = 0x100 then 1 else 0) (\<lambda>p. 0)"

text \<open>
  On 16 bits, a layout word that is the address \<open>0x1000\<close> of a descriptor whose size
  word is \<open>0\<close> and whose first bitmap byte, at \<open>0x1002\<close>, is \<open>1\<close>.
\<close>

definition sizeZeroExternal :: "16 runtime" where
  "sizeZeroExternal =
     example_runtime (\<lambda>p. if p = 0x100 then 0x1000 else 0) (\<lambda>p. if p = 0x1002 then 1 else 0)"

text \<open>Assertions on (\<open>gcAsserts = true\<close>), and block \<open>0\<close> the head of every block.\<close>

definition assertingRuntime :: "64 runtime" where
  "assertingRuntime = (example_runtime (\<lambda>p. 0) (\<lambda>p. 0))
     \<lparr>gcAsserts := True, findHead := (\<lambda>block. 0)\<rparr>"

text \<open>A native word of 8 bits, with the odd layout word \<open>1\<close>.\<close>

definition eightBitRuntime :: "8 runtime" where
  "eightBitRuntime = example_runtime (\<lambda>p. 1) (\<lambda>p. 0)"

text \<open>
  Two memory maps: one where only the heap of the example runtime is memory, and one
  where every address but \<open>nil\<close> is.
\<close>

definition heapOnly :: "'a::len word \<Rightarrow> bool" where
  "heapOnly a = (0x100 \<le> a \<and> a < 0x200)"

definition allMapped :: "'a::len word \<Rightarrow> bool" where
  "allMapped a = True"

section \<open>Properties\<close>

subsection \<open>One call, and a sequence of calls\<close>

lemma nextIsPointer_snd: "snd (nextIsPointer rt sc w p a) = advance sc"
  by (simp add: nextIsPointer_def advance_def Let_def)

lemma shifted_bit_clear: "(drop_bit n x AND 1 = 0) = (\<not> bit x n)" for x :: "'b::len word"
  by (simp add: and_one_eq bit_iff_odd_drop_bit even_iff_mod_2_eq_zero)

lemma nextIsPointer_fst:
  "fst (nextIsPointer rt sc w p a) =
     (isOnHeap rt w \<and>
      (if bitmapAddr sc \<noteq> 0
       then bit (load_uint8 rt (bitmapAddr sc + index sc div 8)) (unat (index sc mod 8))
       else bit (bitmap sc) (unat (index sc))))"
  by (simp add: nextIsPointer_def Let_def shifted_bit_clear)

lemma scanWords_Cons:
  "scanWords rt sc (x # xs) =
     (fst (nextIsPointer rt sc (fst x) (fst (snd x)) (snd (snd x))) #
        fst (scanWords rt (advance sc) xs),
      snd (scanWords rt (advance sc) xs))"
proof -
  obtain w p a where x: "x = (w, p, a)" by (cases x)
  show ?thesis unfolding x
    using nextIsPointer_snd[of rt sc w p a] by (simp add: case_prod_beta Let_def)
qed

lemma scanWords_snd: "snd (scanWords rt sc ws) = (advance ^^ length ws) sc"
  by (induction ws arbitrary: sc) (simp_all add: scanWords_Cons funpow_swap1 del: scanWords.simps(2))

lemma scanWords_length: "length (fst (scanWords rt sc ws)) = length ws"
  by (induction ws arbitrary: sc) (simp_all add: scanWords_Cons del: scanWords.simps(2))

lemma scanWords_nth:
  "i < length ws \<Longrightarrow>
   fst (scanWords rt sc ws) ! i =
     fst (nextIsPointer rt ((advance ^^ i) sc) (fst (ws ! i)) (fst (snd (ws ! i))) (snd (snd (ws ! i))))"
proof (induction ws arbitrary: sc i)
  case Nil then show ?case by simp
next
  case (Cons x xs)
  show ?case
  proof (cases i)
    case 0 then show ?thesis by (simp add: scanWords_Cons del: scanWords.simps(2))
  next
    case (Suc j)
    then have "j < length xs" using Cons.prems by simp
    from Cons.IH[OF this, of "advance sc"] show ?thesis using Suc
      by (simp add: scanWords_Cons funpow_swap1 del: scanWords.simps(2))
  qed
qed

lemma advance_fields [simp]:
  "size_w (advance sc) = size_w sc" "bitmap (advance sc) = bitmap sc" "bitmapAddr (advance sc) = bitmapAddr sc"
  by (simp_all add: advance_def)

lemma advance_pow_fields [simp]:
  "size_w ((advance ^^ n) sc) = size_w sc" "bitmap ((advance ^^ n) sc) = bitmap sc"
  "bitmapAddr ((advance ^^ n) sc) = bitmapAddr sc"
  by (induction n) simp_all

lemma period_pos: "0 < period sc"
  by (simp add: period_def unat_gt_0)

lemma period_le: "period sc \<le> 2 ^ LENGTH('a)" for sc :: "'a::len gcObjectScanner"
  using unsigned_less[of "size_w sc", where 'a=nat] by (simp add: period_def less_imp_le del: unsigned_less)

lemma advance_index:
  "index (advance sc) = (if index sc + 1 = size_w sc then 0 else index sc + 1)"
  by (simp add: advance_def)

lemma of_nat_mod_width: "(of_nat (m mod 2 ^ LENGTH('a)) :: 'a::len word) = of_nat m"
  by (simp add: word_of_nat_eq_iff take_bit_eq_mod)

lemma advance_pow_index:
  fixes sc :: "'a::len gcObjectScanner"
  assumes "index sc = 0"
  shows "index ((advance ^^ n) sc) = of_nat (n mod period sc)"
proof (induction n)
  case 0 then show ?case using assms by simp
next
  case (Suc n)
  let ?P = "period sc"
  have lt: "n mod ?P < ?P" using period_pos[of sc] by simp
  show ?case
  proof (cases "size_w sc = 0")
    case True
    then have P: "?P = 2 ^ LENGTH('a)" by (simp add: period_def)
    have "(of_nat (n mod ?P) :: 'a word) = of_nat n" unfolding P
      by (rule of_nat_mod_width)
    moreover have "(of_nat (Suc n mod ?P) :: 'a word) = of_nat n + 1" unfolding P
      by (simp only: of_nat_mod_width of_nat_Suc add.commute)
    ultimately show ?thesis using Suc True by (simp add: advance_index)
  next
    case False
    then have P: "?P = unat (size_w sc)" by (simp add: period_def)
    show ?thesis
    proof (cases "Suc (n mod ?P) = ?P")
      case True
      then have "(of_nat (n mod ?P) :: 'a word) + 1 = size_w sc"
      proof -
        have "(of_nat (Suc (n mod ?P)) :: 'a word) = of_nat (unat (size_w sc))"
          using True P by simp
        then show ?thesis by (simp add: add.commute)
      qed
      moreover have "Suc n mod ?P = 0" using True by (metis mod_Suc mod_self)
      ultimately show ?thesis using Suc by (simp add: advance_index)
    next
      case False
      then have lt2: "Suc (n mod ?P) < ?P" using lt by simp
      then have m: "Suc n mod ?P = Suc (n mod ?P)" by (simp add: mod_Suc)
      have "unat ((of_nat (Suc (n mod ?P))) :: 'a word) = Suc (n mod ?P)"
        using lt2 period_le[of sc] by (simp add: unat_of_nat del: of_nat_Suc)
      then have "(of_nat (Suc (n mod ?P)) :: 'a word) \<noteq> size_w sc" using False P by metis
      then show ?thesis using Suc m by (simp add: advance_index add.commute)
    qed
  qed
qed

lemma example_runtime_simps [simp]:
  "gcAsserts (example_runtime words bytes) = False"
  "findHead (example_runtime words bytes) block = block"
  "address (example_runtime words bytes) block = 0x100 + 16 * block"
  "isOnHeap (example_runtime words bytes) ptr = (0x100 \<le> ptr \<and> ptr < 0x200)"
  "load_uintptr (example_runtime words bytes) = words"
  "load_uint8 (example_runtime words bytes) = bytes"
  by (simp_all add: example_runtime_def)

subsection \<open>The decoder\<close>

lemma odd_iff_and_one: "(v AND 1 \<noteq> 0) = odd v" for v :: "'a::len word"
  by (simp add: and_one_eq even_iff_mod_2_eq_zero)

lemma decode_unknown:
  assumes "\<not> (gcAsserts rt \<and> block \<noteq> findHead rt block)"
    and "load_uintptr rt (address rt block) = 0"
  shows "newGCObjectScanner rt block = Inr \<lparr>index = 0, size_w = 1, bitmap = 1, bitmapAddr = 0\<rparr>"
  using assms by (simp add: newGCObjectScanner_def)

lemma decode_inline:
  fixes rt :: "'a::len runtime"
  assumes "\<not> (gcAsserts rt \<and> block \<noteq> findHead rt block)"
    and "load_uintptr rt (address rt block) = v" and "odd v"
    and "sizeFieldBits LENGTH('a) = Some s"
  shows "newGCObjectScanner rt block =
    Inr \<lparr>index = 0, size_w = drop_bit 1 v AND (2 ^ s - 1), bitmap = drop_bit (1 + s) v, bitmapAddr = 0\<rparr>"
proof -
  have "v \<noteq> 0" using assms(3) by auto
  moreover have "v AND 1 \<noteq> 0" using assms(3) by (simp add: odd_iff_and_one)
  ultimately show ?thesis using assms(1,2,4)
    by (simp add: newGCObjectScanner_def push_bit_of_1)
qed

lemma decode_external:
  fixes rt :: "'a::len runtime"
  assumes "\<not> (gcAsserts rt \<and> block \<noteq> findHead rt block)"
    and "load_uintptr rt (address rt block) = p" and "even p" and "p \<noteq> 0"
  shows "newGCObjectScanner rt block =
    Inr \<lparr>index = 0, size_w = load_uintptr rt p, bitmap = 0, bitmapAddr = p + of_nat (LENGTH('a) div 8)\<rparr>"
proof -
  have "\<not> v AND 1 \<noteq> 0" if "even v" for v :: "'a word" using that by (simp add: odd_iff_and_one)
  then show ?thesis using assms
    by (simp add: newGCObjectScanner_def)
qed

lemma decoded_index:
  "newGCObjectScanner rt block = Inr scanner \<Longrightarrow> index scanner = 0"
  by (auto simp: newGCObjectScanner_def Let_def split: if_splits option.splits)

lemma sizeFieldBits_widths:
  "(sizeFieldBits n = Some s) = (n = 16 \<and> s = 4 \<or> n = 32 \<and> s = 5 \<or> n = 64 \<and> s = 6)"
  by (auto simp: sizeFieldBits_def)

lemma sizeFieldBits_None: "(sizeFieldBits n = None) = (n \<notin> {16, 32, 64})"
  by (auto simp: sizeFieldBits_def)

lemma call_result:
  fixes scanner :: "'a::len gcObjectScanner"
  assumes "index scanner = 0" and "i < length ws"
  shows "fst (scanWords rt scanner ws) ! i =
     (isOnHeap rt (fst (ws ! i)) \<and>
      (if bitmapAddr scanner \<noteq> 0
       then bit (load_uint8 rt (bitmapAddr scanner + of_nat (i mod period scanner) div 8))
              (unat ((of_nat (i mod period scanner) :: 'a word) mod 8))
       else bit (bitmap scanner) (unat (of_nat (i mod period scanner) :: 'a word))))"
  using assms by (simp add: scanWords_nth nextIsPointer_fst advance_pow_index)

lemma unat_of_nat_mod_period:
  fixes scanner :: "'a::len gcObjectScanner"
  shows "unat (of_nat (i mod period scanner) :: 'a word) = i mod period scanner"
proof -
  have "i mod period scanner < period scanner" using period_pos[of scanner] by simp
  then have "i mod period scanner < 2 ^ LENGTH('a)" using period_le[of scanner] by simp
  then show ?thesis by (simp add: unat_of_nat)
qed

lemma take_bit_eight: "8 dvd LENGTH('a::len) \<Longrightarrow> take_bit LENGTH('a) (8::nat) = 8"
proof -
  assume "8 dvd LENGTH('a)"
  then have "8 \<le> LENGTH('a)" by (simp add: dvd_imp_le)
  then have "(2::nat) ^ 8 \<le> 2 ^ LENGTH('a)"
    by (simp only: power_increasing_iff one_less_numeral_iff semiring_norm)
  then have "(8::nat) < 2 ^ LENGTH('a)" by simp
  then show ?thesis by (simp only: take_bit_nat_eq_self)
qed

subsection \<open>Reads that fault\<close>

text \<open>
  Where no read faults, the decoder and the classifier with faults return what the
  ones without return.
\<close>

lemma newGCObjectScanner_mem_Inr:
  "newGCObjectScanner_mem mapped rt block = Inr sc \<Longrightarrow> newGCObjectScanner rt block = Inr sc"
  by (auto simp: newGCObjectScanner_mem_def newGCObjectScanner_def read_uintptr_def Let_def
      split: if_splits option.splits)

lemma readable_iff:
  "readable mapped p n = (\<forall>k<n. p + of_nat k \<noteq> 0 \<and> mapped (p + of_nat k))"
  by (auto simp: readable_def list_all_iff)

lemma readable_mono: "readable mapped p n \<Longrightarrow> m \<le> n \<Longrightarrow> readable mapped p m"
  by (simp add: readable_iff)

lemma readable_offset:
  "readable mapped p (a + b) \<Longrightarrow> readable mapped (p + of_nat a) b"
proof -
  assume r: "readable mapped p (a + b)"
  have "p + of_nat a + of_nat k \<noteq> 0 \<and> mapped (p + of_nat a + of_nat k)" if "k < b" for k
  proof -
    have "a + k < a + b" using that by simp
    then have "p + of_nat (a + k) \<noteq> 0 \<and> mapped (p + of_nat (a + k))"
      using r unfolding readable_iff by blast
    then show ?thesis by (simp add: add.assoc)
  qed
  then show ?thesis by (simp add: readable_iff)
qed

lemma nextIsPointer_mem_eq:
  "nextIsPointer_mem mapped rt sc w p a =
     (if isOnHeap rt w \<and> bitmapAddr sc \<noteq> 0 \<and>
         \<not> readable mapped (bitmapAddr sc + index sc div 8) 1
      then Inl MemoryFault else Inr (nextIsPointer rt sc w p a))"
  by (simp add: nextIsPointer_mem_def nextIsPointer_def read_uint8_def Let_def)

lemma scanWords_mem_eq:
  "(\<And>n. bitmapAddr sc \<noteq> 0 \<Longrightarrow>
      readable mapped (bitmapAddr sc + index ((advance ^^ n) sc) div 8) 1)
   \<Longrightarrow> scanWords_mem mapped rt sc ws = Inr (scanWords rt sc ws)"
proof (induction ws arbitrary: sc)
  case Nil
  then show ?case by simp
next
  case (Cons x xs)
  obtain w p a where x: "x = (w, p, a)" by (cases x)
  have here: "bitmapAddr sc \<noteq> 0 \<Longrightarrow> readable mapped (bitmapAddr sc + index sc div 8) 1"
    using Cons.prems[of 0] by simp
  have step: "nextIsPointer_mem mapped rt sc w p a = Inr (nextIsPointer rt sc w p a)"
    using here by (auto simp: nextIsPointer_mem_eq)
  have "bitmapAddr (advance sc) \<noteq> 0 \<Longrightarrow>
          readable mapped (bitmapAddr (advance sc) + index ((advance ^^ n) (advance sc)) div 8) 1"
    for n using Cons.prems[of "Suc n"] by (simp add: funpow_swap1)
  then have rest: "scanWords_mem mapped rt (advance sc) xs = Inr (scanWords rt (advance sc) xs)"
    by (rule Cons.IH)
  have snd_eq: "snd (nextIsPointer rt sc w p a) = advance sc" by (rule nextIsPointer_snd)
  show ?case unfolding x
    using step rest snd_eq
    by (cases "nextIsPointer rt sc w p a") (simp add: case_prod_beta Let_def)
qed

lemma decode_mem_external:
  fixes rt :: "'a::len runtime"
  assumes "\<not> (gcAsserts rt \<and> block \<noteq> findHead rt block)"
    and "read_uintptr mapped rt (address rt block) = Inr p" and "even p" and "p \<noteq> 0"
  shows "newGCObjectScanner_mem mapped rt block =
    (if readable mapped p (LENGTH('a) div 8)
     then Inr \<lparr>index = 0, size_w = load_uintptr rt p, bitmap = 0,
               bitmapAddr = p + of_nat (LENGTH('a) div 8)\<rparr>
     else Inl MemoryFault)"
proof -
  have "\<not> p AND 1 \<noteq> 0" using assms(3) by (simp add: odd_iff_and_one)
  then show ?thesis using assms(1,2,4)
    by (simp add: newGCObjectScanner_mem_def) (simp add: read_uintptr_def)
qed

section \<open>The claims\<close>

subsection \<open>Inline layouts\<close>

text \<open>
  C1, as stated, fails where the size field of the layout word is \<open>0\<close>. On 16 bits the
  layout word \<open>33\<close> decodes to size \<open>0\<close> and bitmap \<open>1\<close>. The cursor is reset only when
  it equals the size after the increment, so here it runs through the whole range of
  the native word and is \<open>0\<close> again at call \<open>65536\<close>, which returns bit \<open>0\<close> of the
  bitmap, true, for a word on the heap. Bit \<open>65536 mod size\<close> of the bitmap is false
  (\<open>65536 mod 0\<close> is \<open>65536\<close> in HOL).
\<close>

theorem inline_size_zero_counterexample:
  "newGCObjectScanner sizeZeroInline 0 =
     Inr \<lparr>index = 0, size_w = 0, bitmap = 1, bitmapAddr = 0\<rparr> \<and>
   fst (scanWords sizeZeroInline \<lparr>index = 0, size_w = 0, bitmap = 1, bitmapAddr = 0\<rparr>
          (replicate 65537 (0x110, 0x100, 0x108))) ! 65536 = True \<and>
   bit (bitmap \<lparr>index = 0, size_w = 0 :: 16 word, bitmap = 1 :: 16 word, bitmapAddr = 0 :: 16 word\<rparr>)
     (65536 mod unat (size_w \<lparr>index = 0, size_w = 0 :: 16 word, bitmap = 1 :: 16 word, bitmapAddr = 0 :: 16 word\<rparr>))
     = False"
proof -
  let ?Z = "\<lparr>index = 0, size_w = 0 :: 16 word, bitmap = 1 :: 16 word, bitmapAddr = 0 :: 16 word\<rparr>"
  have dec: "newGCObjectScanner sizeZeroInline 0 = Inr ?Z"
    by (simp add: newGCObjectScanner_def sizeZeroInline_def sizeFieldBits_def)
  have per: "period ?Z = 65536" by (simp add: period_def)
  have "fst (scanWords sizeZeroInline ?Z (replicate 65537 (0x110, 0x100, 0x108))) ! 65536 = True"
    by (simp add: call_result per sizeZeroInline_def del: scanWords.simps)
  then show ?thesis using dec by simp
qed

text \<open>
  C1, amended. On a native word of 16, 32 or 64 bits, with \<open>s\<close> = 4, 5 or 6, an odd
  layout word \<open>v\<close> decodes to size \<open>(v >> 1) & (2^s - 1)\<close>, bitmap \<open>v >> (1 + s)\<close> and
  no external descriptor. Call \<open>i\<close> (from \<open>0\<close>) on the fresh scanner, on a word on the
  heap, returns bit \<open>i mod size\<close> of the bitmap when the size is not \<open>0\<close>; when the
  size is \<open>0\<close> it returns bit \<open>i mod 2^W\<close>. The words of the earlier calls are
  arbitrary.
\<close>

theorem inline_layout_classify:
  fixes rt :: "'a::len runtime"
  assumes "LENGTH('a) = 16 \<and> s = 4 \<or> LENGTH('a) = 32 \<and> s = 5 \<or> LENGTH('a) = 64 \<and> s = 6"
    and "\<not> (gcAsserts rt \<and> block \<noteq> findHead rt block)"
    and "load_uintptr rt (address rt block) = v" and "odd v"
  shows "let scanner = \<lparr>index = 0, size_w = drop_bit 1 v AND (2 ^ s - 1),
                        bitmap = drop_bit (1 + s) v, bitmapAddr = 0\<rparr>
         in newGCObjectScanner rt block = Inr scanner \<and>
            (\<forall>ws i. i < length ws \<and> isOnHeap rt (fst (ws ! i)) \<longrightarrow>
               fst (scanWords rt scanner ws) ! i =
                 bit (bitmap scanner)
                   (i mod (if size_w scanner = 0 then 2 ^ LENGTH('a) else unat (size_w scanner))))"
proof -
  define scanner :: "'a gcObjectScanner" where
    "scanner = \<lparr>index = 0, size_w = drop_bit 1 v AND (2 ^ s - 1),
                 bitmap = drop_bit (1 + s) v, bitmapAddr = 0\<rparr>"
  have s: "sizeFieldBits LENGTH('a) = Some s" using assms(1) by (simp add: sizeFieldBits_widths)
  have dec: "newGCObjectScanner rt block = Inr scanner"
    unfolding scanner_def by (rule decode_inline[OF assms(2,3,4) s])
  have "fst (scanWords rt scanner ws) ! i = bit (bitmap scanner) (i mod period scanner)"
    if "i < length ws" "isOnHeap rt (fst (ws ! i))" for ws i
  proof -
    have "index scanner = 0" "bitmapAddr scanner = 0" by (simp_all add: scanner_def)
    then show ?thesis using that unat_of_nat_mod_period[of i scanner]
      by (simp add: call_result)
  qed
  then show ?thesis using dec unfolding scanner_def Let_def period_def by blast
qed

text \<open>
  Scenario B: the layout word \<open>647\<close> on 64 bits decodes to size \<open>3\<close> and bitmap
  \<open>0b101\<close>, and four calls on words on the heap return true, false, true, true.
\<close>

theorem inline_layout_classify_witness:
  "newGCObjectScanner scenarioB 0 = Inr \<lparr>index = 0, size_w = 3, bitmap = 5, bitmapAddr = 0\<rparr> \<and>
   fst (scanWords scenarioB \<lparr>index = 0, size_w = 3, bitmap = 5, bitmapAddr = 0\<rparr>
          [(0x110, 0x100, 0x108), (0x120, 0x100, 0x110), (0x130, 0x100, 0x118),
           (0x140, 0x100, 0x120)])
     = [True, False, True, True]"
proof -
  let ?ws = "[(0x110, 0x100, 0x108), (0x120, 0x100, 0x110), (0x130, 0x100, 0x118),
              (0x140, 0x100, 0x120)] :: (64 word \<times> 64 word \<times> 64 word) list"
  let ?B = "\<lparr>index = 0, size_w = 3, bitmap = 5, bitmapAddr = 0\<rparr> :: 64 gcObjectScanner"
  have sz: "drop_bit 1 (647 :: 64 word) AND (2 ^ 6 - 1) = 3" by simp
  have bm: "drop_bit (1 + 6) (647 :: 64 word) = 5" by simp
  have h1: "LENGTH(64) = 16 \<and> (6::nat) = 4 \<or> LENGTH(64) = 32 \<and> (6::nat) = 5 \<or>
            LENGTH(64) = 64 \<and> (6::nat) = 6" by simp
  have h2: "\<not> (gcAsserts scenarioB \<and> 0 \<noteq> findHead scenarioB 0)" by (simp add: scenarioB_def)
  have h3: "load_uintptr scenarioB (address scenarioB 0) = 647" by (simp add: scenarioB_def)
  have h4: "odd (647 :: 64 word)" by simp
  note t = inline_layout_classify[OF h1 h2 h3 h4, unfolded Let_def sz bm]
  have t': "newGCObjectScanner scenarioB 0 = Inr ?B \<and>
            (\<forall>ws i. i < length ws \<and> isOnHeap scenarioB (fst (ws ! i)) \<longrightarrow>
               fst (scanWords scenarioB ?B ws) ! i = bit (5 :: 64 word) (i mod 3))"
    using t by simp
  let ?rs = "fst (scanWords scenarioB ?B ?ws)"
  have heap: "isOnHeap scenarioB 0x110" "isOnHeap scenarioB 0x120"
    "isOnHeap scenarioB 0x130" "isOnHeap scenarioB 0x140"
    by (simp_all add: scenarioB_def)
  have r0: "?rs ! 0 = True" using t'[THEN conjunct2, rule_format, of 0 ?ws] heap by simp
  have r1: "?rs ! 1 = False" using t'[THEN conjunct2, rule_format, of 1 ?ws] heap by simp
  have r2: "?rs ! 2 = True" using t'[THEN conjunct2, rule_format, of 2 ?ws] heap by simp
  have r3: "?rs ! 3 = True" using t'[THEN conjunct2, rule_format, of 3 ?ws] heap by simp
  have len: "length ?rs = 4" by (simp add: scanWords_length del: scanWords.simps)
  have "?rs = [True, False, True, True]"
  proof (rule nth_equalityI)
    show "length ?rs = length [True, False, True, True]" using len by simp
  next
    fix i assume "i < length ?rs"
    then have "i = 0 \<or> i = 1 \<or> i = 2 \<or> i = 3" unfolding len by arith
    then show "?rs ! i = [True, False, True, True] ! i"
      using r0 r1 r2 r3 by (elim disjE) (simp_all add: numeral_2_eq_2 numeral_3_eq_3)
  qed
  then show ?thesis using t' by simp
qed

subsection \<open>External layouts\<close>

text \<open>
  C2, as stated, fails in two places. First, the decoder reads the size word through
  the layout word: where no memory is mapped at that address (here the descriptor
  address \<open>0x1000\<close>, with only the heap mapped) the read faults and no scanner is
  produced. Second, where the size word of the descriptor is \<open>0\<close> the cursor is reset
  only by wrapping around, as for C1: on 16 bits, with every read succeeding, call
  \<open>65536\<close> reads bit \<open>0\<close> of the first bitmap byte, true, where the byte at offset
  \<open>65536 div 8\<close> is \<open>0\<close>.
\<close>

theorem external_layout_counterexample:
  "newGCObjectScanner_mem heapOnly externalEight 0 = Inl MemoryFault \<and>
   newGCObjectScanner_mem allMapped sizeZeroExternal 0 =
     Inr \<lparr>index = 0, size_w = 0, bitmap = 0, bitmapAddr = 0x1002\<rparr> \<and>
   scanWords_mem allMapped sizeZeroExternal
       \<lparr>index = 0, size_w = 0, bitmap = 0, bitmapAddr = 0x1002\<rparr>
       (replicate 65537 (0x110, 0x100, 0x108)) =
     Inr (scanWords sizeZeroExternal \<lparr>index = 0, size_w = 0, bitmap = 0, bitmapAddr = 0x1002\<rparr>
            (replicate 65537 (0x110, 0x100, 0x108))) \<and>
   fst (scanWords sizeZeroExternal \<lparr>index = 0, size_w = 0, bitmap = 0, bitmapAddr = 0x1002\<rparr>
          (replicate 65537 (0x110, 0x100, 0x108))) ! 65536 = True \<and>
   bit (load_uint8 sizeZeroExternal
          (0x1000 + 2 + of_nat ((65536 mod unat (0 :: 16 word)) div 8)))
     ((65536 mod unat (0 :: 16 word)) mod 8) = False"
proof -
  let ?Z = "\<lparr>index = 0, size_w = 0 :: 16 word, bitmap = 0 :: 16 word, bitmapAddr = 0x1002 :: 16 word\<rparr>"
  have a: "newGCObjectScanner_mem heapOnly externalEight 0 = Inl MemoryFault"
    by (simp add: newGCObjectScanner_mem_def read_uintptr_def readable_def heapOnly_def
        externalEight_def upt_conv_Cons)
  have d: "newGCObjectScanner_mem allMapped sizeZeroExternal 0 = Inr ?Z"
    by (simp add: newGCObjectScanner_mem_def read_uintptr_def readable_def allMapped_def
        sizeZeroExternal_def upt_conv_Cons)
  have byte: "readable allMapped (bitmapAddr ?Z + x div 8) 1" for x :: "16 word"
  proof -
    have "unat (x div 8) \<le> 8191"
      using unsigned_less[of x, where 'a = nat] by (simp add: unat_div del: unsigned_less)
    then have "unat (0x1002 + x div 8) = 4098 + unat (x div 8)"
      by (simp add: unat_word_ariths)
    then have "0x1002 + x div 8 \<noteq> 0" by (metis add_is_0 unat_eq_zero zero_neq_numeral unsigned_0)
    then show ?thesis by (simp add: readable_def allMapped_def)
  qed
  have e0: "scanWords_mem allMapped sizeZeroExternal ?Z (replicate 65537 (0x110, 0x100, 0x108)) =
     Inr (scanWords sizeZeroExternal ?Z (replicate 65537 (0x110, 0x100, 0x108)))"
    by (rule scanWords_mem_eq) (rule byte)
  have per: "period ?Z = 65536" by (simp add: period_def)
  have e: "fst (scanWords sizeZeroExternal ?Z (replicate 65537 (0x110, 0x100, 0x108))) ! 65536 = True"
    by (simp add: call_result per sizeZeroExternal_def del: scanWords.simps)
  have f: "bit (load_uint8 sizeZeroExternal
          (0x1000 + 2 + of_nat ((65536 mod unat (0 :: 16 word)) div 8)))
     ((65536 mod unat (0 :: 16 word)) mod 8) = False"
    by (simp add: sizeZeroExternal_def)
  show ?thesis using a d e0 e f by (simp only: simp_thms)
qed

text \<open>
  C2, amended. Let the native word be a whole number of bytes, and let \<open>p\<close> be an even
  layout word other than \<open>0\<close>. The decoder reads the native word at \<open>p\<close>: when it is
  readable, the scanner has that word as its size and \<open>p + word_size\<close> as the address
  of its bitmap bytes; otherwise the read faults. Let the cycle be the size, or \<open>2^W\<close>
  when the size is \<open>0\<close>. When the descriptor is readable from \<open>p\<close> through the bitmap
  bytes of one cycle (\<open>ceil(size / 8)\<close> bytes when the size is not \<open>0\<close>), no call faults,
  and call \<open>i\<close> (from \<open>0\<close>) on the fresh scanner, on a word on the heap, returns bit
  \<open>m mod 8\<close> of the byte at offset \<open>m div 8\<close> of the bitmap bytes, where \<open>m\<close> is \<open>i\<close>
  modulo the cycle.
\<close>

theorem external_layout_classify:
  fixes rt :: "'a::len runtime"
  assumes "8 dvd LENGTH('a)"
    and "\<not> (gcAsserts rt \<and> block \<noteq> findHead rt block)"
    and "read_uintptr mapped rt (address rt block) = Inr p" and "even p" and "p \<noteq> 0"
  shows "let scanner = \<lparr>index = 0, size_w = load_uintptr rt p, bitmap = 0,
                        bitmapAddr = p + of_nat (LENGTH('a) div 8)\<rparr>;
             cycle = (if size_w scanner = 0 then 2 ^ LENGTH('a) else unat (size_w scanner))
         in newGCObjectScanner_mem mapped rt block =
              (if readable mapped p (LENGTH('a) div 8) then Inr scanner else Inl MemoryFault) \<and>
            (readable mapped p (LENGTH('a) div 8 + ((cycle - 1) div 8 + 1)) \<longrightarrow>
               (\<forall>ws. scanWords_mem mapped rt scanner ws = Inr (scanWords rt scanner ws)) \<and>
               (\<forall>ws i. i < length ws \<and> isOnHeap rt (fst (ws ! i)) \<longrightarrow>
                  (let m = i mod cycle
                   in fst (scanWords rt scanner ws) ! i =
                        bit (load_uint8 rt (bitmapAddr scanner + of_nat (m div 8))) (m mod 8))))"
proof -
  define scanner :: "'a gcObjectScanner" where
    "scanner = \<lparr>index = 0, size_w = load_uintptr rt p, bitmap = 0,
                 bitmapAddr = p + of_nat (LENGTH('a) div 8)\<rparr>"
  let ?w = "LENGTH('a) div 8"
  let ?P = "period scanner"
  have i0: "index scanner = 0" and ba: "bitmapAddr scanner = p + of_nat ?w"
    by (simp_all add: scanner_def)
  have dec: "newGCObjectScanner_mem mapped rt block =
      (if readable mapped p ?w then Inr scanner else Inl MemoryFault)"
    unfolding scanner_def by (rule decode_mem_external[OF assms(2,3,4,5)])
  have idx: "index ((advance ^^ n) scanner) div 8 = of_nat ((n mod ?P) div 8)"
    and sh: "unat (index ((advance ^^ n) scanner) mod 8) = (n mod ?P) mod 8" for n
  proof -
    have u: "unat (of_nat (n mod ?P) :: 'a word) = n mod ?P" by (rule unat_of_nat_mod_period)
    show "index ((advance ^^ n) scanner) div 8 = of_nat ((n mod ?P) div 8)"
      by (simp add: advance_pow_index[OF i0] word_arith_nat_div u take_bit_eight[OF assms(1)])
    show "unat (index ((advance ^^ n) scanner) mod 8) = (n mod ?P) mod 8"
      by (simp add: advance_pow_index[OF i0] unat_mod u take_bit_eight[OF assms(1)])
  qed
  have main: "(\<forall>ws. scanWords_mem mapped rt scanner ws = Inr (scanWords rt scanner ws)) \<and>
      (\<forall>ws i. i < length ws \<and> isOnHeap rt (fst (ws ! i)) \<longrightarrow>
         fst (scanWords rt scanner ws) ! i =
           bit (load_uint8 rt (bitmapAddr scanner + of_nat ((i mod ?P) div 8))) ((i mod ?P) mod 8))"
    if r: "readable mapped p (?w + ((?P - 1) div 8 + 1))"
  proof -
    have "?w < ?w + ((?P - 1) div 8 + 1)" by simp
    then have "p + of_nat ?w \<noteq> 0" using r unfolding readable_iff by blast
    then have nz: "bitmapAddr scanner \<noteq> 0" by (simp add: ba)
    have bytes: "readable mapped (bitmapAddr scanner) ((?P - 1) div 8 + 1)"
      unfolding ba by (rule readable_offset[OF r])
    have byte: "readable mapped (bitmapAddr scanner + index ((advance ^^ n) scanner) div 8) 1" for n
    proof -
      have "n mod ?P < ?P" using period_pos[of scanner] by simp
      then have "n mod ?P \<le> ?P - 1" by simp
      then have "(n mod ?P) div 8 \<le> (?P - 1) div 8" by (rule div_le_mono)
      then have "(n mod ?P) div 8 + 1 \<le> (?P - 1) div 8 + 1" by simp
      then have "readable mapped (bitmapAddr scanner + of_nat ((n mod ?P) div 8)) 1"
        using readable_offset[of mapped "bitmapAddr scanner" "(n mod ?P) div 8" 1]
          readable_mono[OF bytes] by blast
      then show ?thesis by (simp only: idx)
    qed
    have all: "scanWords_mem mapped rt scanner ws = Inr (scanWords rt scanner ws)" for ws
      by (rule scanWords_mem_eq) (rule byte)
    have res: "fst (scanWords rt scanner ws) ! i =
           bit (load_uint8 rt (bitmapAddr scanner + of_nat ((i mod ?P) div 8))) ((i mod ?P) mod 8)"
      if "i < length ws" "isOnHeap rt (fst (ws ! i))" for ws i
      using that nz idx[of i] sh[of i]
      by (simp add: scanWords_nth nextIsPointer_fst)
    show ?thesis using all res by blast
  qed
  show ?thesis using dec main unfolding scanner_def Let_def period_def by simp
qed

text \<open>
  Scenario C: a descriptor of size \<open>8\<close> with the bitmap byte \<open>0b00000101\<close>; the
  ninth call repeats the first.
\<close>

theorem external_layout_classify_witness:
  "newGCObjectScanner_mem allMapped externalEight 0 =
     Inr \<lparr>index = 0, size_w = 8, bitmap = 0, bitmapAddr = 0x1008\<rparr> \<and>
   scanWords_mem allMapped externalEight \<lparr>index = 0, size_w = 8, bitmap = 0, bitmapAddr = 0x1008\<rparr>
          [(0x110, 0x100, 0x108), (0x110, 0x100, 0x110), (0x110, 0x100, 0x118),
           (0x110, 0x100, 0x120), (0x110, 0x100, 0x128), (0x110, 0x100, 0x130),
           (0x110, 0x100, 0x138), (0x110, 0x100, 0x140), (0x110, 0x100, 0x148)] =
     Inr ([True, False, True, False, False, False, False, False, True],
          \<lparr>index = 1, size_w = 8, bitmap = 0, bitmapAddr = 0x1008\<rparr>) \<and>
   fst (scanWords externalEight \<lparr>index = 0, size_w = 8, bitmap = 0, bitmapAddr = 0x1008\<rparr>
          [(0x110, 0x100, 0x108), (0x110, 0x100, 0x110), (0x110, 0x100, 0x118),
           (0x110, 0x100, 0x120), (0x110, 0x100, 0x128), (0x110, 0x100, 0x130),
           (0x110, 0x100, 0x138), (0x110, 0x100, 0x140), (0x110, 0x100, 0x148)]) ! 8 =
     bit (5 :: 8 word) 0"
proof -
  let ?ws = "[(0x110, 0x100, 0x108), (0x110, 0x100, 0x110), (0x110, 0x100, 0x118),
           (0x110, 0x100, 0x120), (0x110, 0x100, 0x128), (0x110, 0x100, 0x130),
           (0x110, 0x100, 0x138), (0x110, 0x100, 0x140), (0x110, 0x100, 0x148)]
           :: (64 word \<times> 64 word \<times> 64 word) list"
  let ?C = "\<lparr>index = 0, size_w = 8, bitmap = 0, bitmapAddr = 0x1008\<rparr> :: 64 gcObjectScanner"
  have h1: "8 dvd LENGTH(64)" by simp
  have h2: "\<not> (gcAsserts externalEight \<and> 0 \<noteq> findHead externalEight 0)"
    by (simp add: externalEight_def)
  have h3: "read_uintptr allMapped externalEight (address externalEight 0) = Inr 0x1000"
    by (simp add: read_uintptr_def readable_def allMapped_def externalEight_def upt_conv_Cons)
  have h4: "even (0x1000 :: 64 word)" by simp
  have h5: "(0x1000 :: 64 word) \<noteq> 0" by simp
  have ld: "load_uintptr externalEight 0x1000 = 8" by (simp add: externalEight_def)
  have ad: "(0x1000 :: 64 word) + of_nat (LENGTH(64) div 8) = 0x1008" by simp
  have r1: "readable (allMapped :: 64 word \<Rightarrow> bool) 0x1000 (LENGTH(64) div 8)"
    by (simp add: readable_def allMapped_def upt_conv_Cons)
  have r2: "readable (allMapped :: 64 word \<Rightarrow> bool) 0x1000
              (LENGTH(64) div 8 + ((unat (8 :: 64 word) - 1) div 8 + 1))"
    by (simp add: readable_def allMapped_def upt_conv_Cons)
  note t = external_layout_classify[OF h1 h2 h3 h4 h5, unfolded Let_def ld ad]
  have dec: "newGCObjectScanner_mem allMapped externalEight 0 = Inr ?C"
    using t[THEN conjunct1] r1 by simp
  have calls: "(\<forall>ws. scanWords_mem allMapped externalEight ?C ws = Inr (scanWords externalEight ?C ws)) \<and>
       (\<forall>ws i. i < length ws \<and> isOnHeap externalEight (fst (ws ! i)) \<longrightarrow>
            fst (scanWords externalEight ?C ws) ! i =
              bit (load_uint8 externalEight (0x1008 + of_nat (i mod 8 div 8))) (i mod 8 mod 8))"
    using t[THEN conjunct2] r2 by simp
  have heap: "isOnHeap externalEight (fst (?ws ! 8))" by (simp add: externalEight_def)
  have nth: "fst (scanWords externalEight ?C ?ws) ! 8 = bit (5 :: 8 word) 0"
    using calls[THEN conjunct2, rule_format, of 8 ?ws] heap
    by (simp add: externalEight_def del: scanWords.simps)
  have val: "scanWords externalEight ?C ?ws =
      ([True, False, True, False, False, False, False, False, True],
       \<lparr>index = 1, size_w = 8, bitmap = 0, bitmapAddr = 0x1008\<rparr>)"
    by (simp add: nextIsPointer_def externalEight_def)
  have seq: "scanWords_mem allMapped externalEight ?C ?ws =
      Inr ([True, False, True, False, False, False, False, False, True],
           \<lparr>index = 1, size_w = 8, bitmap = 0, bitmapAddr = 0x1008\<rparr>)"
    using calls[THEN conjunct1, rule_format, of ?ws] val by (simp only:)
  show ?thesis using dec seq nth by (simp only: simp_thms)
qed

subsection \<open>The unknown layout\<close>

text \<open>
  C3. The layout word \<open>0\<close> decodes to size \<open>1\<close> and bitmap \<open>1\<close>, with no external
  descriptor. Every bit \<open>i mod size\<close> of that bitmap is set, the cursor is \<open>0\<close> after
  any number of calls, and every call returns whether its word is on the heap.
\<close>

theorem unknown_layout_classify:
  fixes rt :: "'a::len runtime"
  assumes "\<not> (gcAsserts rt \<and> block \<noteq> findHead rt block)"
    and "load_uintptr rt (address rt block) = 0"
  shows "let scanner = \<lparr>index = 0, size_w = 1, bitmap = 1, bitmapAddr = 0\<rparr>
         in newGCObjectScanner rt block = Inr scanner \<and>
            (\<forall>i. bit (bitmap scanner) (i mod unat (size_w scanner))) \<and>
            (\<forall>ws. index (snd (scanWords rt scanner ws)) = 0) \<and>
            (\<forall>ws i. i < length ws \<longrightarrow>
               fst (scanWords rt scanner ws) ! i = isOnHeap rt (fst (ws ! i)))"
proof -
  define scanner :: "'a gcObjectScanner" where
    "scanner = \<lparr>index = 0, size_w = 1, bitmap = 1, bitmapAddr = 0\<rparr>"
  have dec: "newGCObjectScanner rt block = Inr scanner"
    unfolding scanner_def by (rule decode_unknown[OF assms])
  have i0: "index scanner = 0" and per: "period scanner = 1"
    by (simp_all add: scanner_def period_def)
  have bits: "bit (bitmap scanner) (i mod unat (size_w scanner))" for i
    by (simp add: scanner_def)
  have cur: "index (snd (scanWords rt scanner ws)) = 0" for ws
    by (simp add: scanWords_snd advance_pow_index[OF i0] per)
  have res: "fst (scanWords rt scanner ws) ! i = isOnHeap rt (fst (ws ! i))"
    if "i < length ws" for ws i
    using that by (simp add: call_result[OF i0] per) (simp add: scanner_def)
  show ?thesis using dec bits cur res unfolding scanner_def Let_def by blast
qed

theorem unknown_layout_classify_witness:
  "newGCObjectScanner scenarioA 0 = Inr \<lparr>index = 0, size_w = 1, bitmap = 1, bitmapAddr = 0\<rparr> \<and>
   fst (scanWords scenarioA \<lparr>index = 0, size_w = 1, bitmap = 1, bitmapAddr = 0\<rparr>
          [(0x110, 0x100, 0x108), (0x42, 0x100, 0x110), (0x1F8, 0x100, 0x118)]) =
     [True, False, True]"
proof -
  let ?ws = "[(0x110, 0x100, 0x108), (0x42, 0x100, 0x110), (0x1F8, 0x100, 0x118)]
               :: (64 word \<times> 64 word \<times> 64 word) list"
  let ?A = "\<lparr>index = 0, size_w = 1, bitmap = 1, bitmapAddr = 0\<rparr> :: 64 gcObjectScanner"
  have h1: "\<not> (gcAsserts scenarioA \<and> 0 \<noteq> findHead scenarioA 0)" by (simp add: scenarioA_def)
  have h2: "load_uintptr scenarioA (address scenarioA 0) = 0" by (simp add: scenarioA_def)
  note t = unknown_layout_classify[OF h1 h2, unfolded Let_def]
  have res: "fst (scanWords scenarioA ?A ?ws) ! i = isOnHeap scenarioA (fst (?ws ! i))"
    if "i < 3" for i
    using t that by (simp del: scanWords.simps)
  have r0: "fst (scanWords scenarioA ?A ?ws) ! 0 = True"
    using res[of 0] by (simp add: scenarioA_def del: scanWords.simps)
  have r1: "fst (scanWords scenarioA ?A ?ws) ! 1 = False"
    using res[of 1] by (simp add: scenarioA_def del: scanWords.simps)
  have r2: "fst (scanWords scenarioA ?A ?ws) ! 2 = True"
    using res[of 2] by (simp add: scenarioA_def del: scanWords.simps)
  have len: "length (fst (scanWords scenarioA ?A ?ws)) = 3"
    by (simp add: scanWords_length del: scanWords.simps)
  have "fst (scanWords scenarioA ?A ?ws) = [True, False, True]"
  proof (rule nth_equalityI)
    show "length (fst (scanWords scenarioA ?A ?ws)) = length [True, False, True]"
      using len by simp
  next
    fix i assume "i < length (fst (scanWords scenarioA ?A ?ws))"
    then have "i = 0 \<or> i = 1 \<or> i = 2" unfolding len by arith
    then show "fst (scanWords scenarioA ?A ?ws) ! i = [True, False, True] ! i"
      using r0 r1 r2 by (elim disjE) (simp_all add: numeral_2_eq_2)
  qed
  then show ?thesis using t by simp
qed

subsection \<open>The decoded size\<close>

text \<open>
  C4, as stated, fails: the odd layout word \<open>1\<close> on 64 bits decodes to size \<open>0\<close>.
\<close>

theorem decoded_size_zero_counterexample:
  "newGCObjectScanner sizeZeroLayout 0 =
     Inr \<lparr>index = 0, size_w = 0, bitmap = 0, bitmapAddr = 0\<rparr> \<and>
   \<not> 1 \<le> size_w \<lparr>index = 0, size_w = 0 :: 64 word, bitmap = 0 :: 64 word, bitmapAddr = 0 :: 64 word\<rparr>"
  by (simp add: newGCObjectScanner_def sizeZeroLayout_def sizeFieldBits_def)

text \<open>
  C4, amended. The decoded size is at least \<open>1\<close> exactly when the layout word is
  \<open>0\<close>, or is odd with a size field (the bits \<open>1\<close> to \<open>s\<close>) that is not \<open>0\<close>, or is an
  even address whose native word, the size word of the descriptor, is not \<open>0\<close>.
\<close>

theorem decoded_size_positive_iff:
  fixes rt :: "'a::len runtime"
  assumes "newGCObjectScanner rt block = Inr scanner"
    and "load_uintptr rt (address rt block) = v"
  shows "(1 \<le> size_w scanner) =
     (v = 0 \<or>
      (odd v \<and> (\<exists>s. (LENGTH('a) = 16 \<and> s = 4 \<or> LENGTH('a) = 32 \<and> s = 5 \<or>
                        LENGTH('a) = 64 \<and> s = 6) \<and>
                      drop_bit 1 v AND (2 ^ s - 1) \<noteq> 0)) \<or>
      (even v \<and> v \<noteq> 0 \<and> load_uintptr rt v \<noteq> 0))"
proof -
  have na: "\<not> (gcAsserts rt \<and> block \<noteq> findHead rt block)"
    using assms(1) by (auto simp: newGCObjectScanner_def split: if_splits)
  have pos: "(1 \<le> w) = (w \<noteq> 0)" for w :: "'a word"
    by (simp add: word_le_nat_alt unat_gt_0[symmetric] Suc_le_eq del: unat_gt_0)
  consider (unknown) "v = 0" | (inline) "odd v" | (external) "even v" "v \<noteq> 0" by blast
  then show ?thesis
  proof cases
    case unknown
    then have "newGCObjectScanner rt block =
        Inr \<lparr>index = 0, size_w = 1, bitmap = 1, bitmapAddr = 0\<rparr>"
      using decode_unknown[OF na] assms(2) by simp
    then have "size_w scanner = 1" using assms(1) by auto
    then show ?thesis using unknown by (simp add: pos)
  next
    case inline
    then obtain s where s: "sizeFieldBits LENGTH('a) = Some s"
      using assms na by (cases "sizeFieldBits LENGTH('a)")
        (auto simp: newGCObjectScanner_def odd_iff_and_one Let_def split: if_splits)
    have "size_w scanner = drop_bit 1 v AND (2 ^ s - 1)"
      using decode_inline[OF na assms(2) inline s] assms(1) by simp
    moreover have "v \<noteq> 0" using inline by auto
    ultimately show ?thesis using inline s by (auto simp: pos sizeFieldBits_widths)
  next
    case external
    have "size_w scanner = load_uintptr rt v"
      using decode_external[OF na assms(2) external] assms(1) by simp
    then show ?thesis using external by (simp add: pos)
  qed
qed

theorem decoded_size_positive_iff_witness:
  "newGCObjectScanner scenarioB 0 = Inr \<lparr>index = 0, size_w = 3, bitmap = 5, bitmapAddr = 0\<rparr> \<and>
   load_uintptr scenarioB (address scenarioB 0) = 647 \<and>
   1 \<le> size_w \<lparr>index = 0, size_w = 3 :: 64 word, bitmap = 5 :: 64 word, bitmapAddr = 0 :: 64 word\<rparr>"
proof -
  have h1: "newGCObjectScanner scenarioB 0 = Inr \<lparr>index = 0, size_w = 3, bitmap = 5, bitmapAddr = 0\<rparr>"
    by (simp add: newGCObjectScanner_def scenarioB_def sizeFieldBits_def)
  have h2: "load_uintptr scenarioB (address scenarioB 0) = 647" by (simp add: scenarioB_def)
  have "drop_bit 1 (647 :: 64 word) AND (2 ^ 6 - 1) \<noteq> 0" by simp
  then have "\<exists>s. (LENGTH(64) = 16 \<and> s = 4 \<or> LENGTH(64) = 32 \<and> s = 5 \<or>
                        LENGTH(64) = 64 \<and> s = 6) \<and>
                      drop_bit 1 (647 :: 64 word) AND (2 ^ s - 1) \<noteq> 0"
    by (intro exI[of _ 6]) simp
  then show ?thesis using h1 h2 decoded_size_positive_iff[OF h1 h2] by simp
qed

subsection \<open>Words that are not on the heap\<close>

text \<open>
  C5. Whatever the scanner holds (any layout, any cursor, any bitmap), a call of
  \<open>nextIsPointer\<close> on a word for which \<open>isOnHeap\<close> is false returns false.
\<close>

theorem off_heap_is_never_pointer:
  "\<not> isOnHeap rt word \<Longrightarrow> fst (nextIsPointer rt scanner word parent addrOfWord) = False"
  by (simp add: nextIsPointer_fst)

theorem off_heap_is_never_pointer_witness:
  "\<not> isOnHeap externalEight 0x42 \<and>
   fst (nextIsPointer externalEight \<lparr>index = 0, size_w = 8, bitmap = 0, bitmapAddr = 0x1008\<rparr>
          0x42 0x100 0x108) = False \<and>
   fst (nextIsPointer externalEight \<lparr>index = 0, size_w = 8, bitmap = 0, bitmapAddr = 0x1008\<rparr>
          0x110 0x100 0x108) = True"
proof -
  have h: "\<not> isOnHeap externalEight 0x42" by (simp add: externalEight_def)
  have "fst (nextIsPointer externalEight \<lparr>index = 0, size_w = 8, bitmap = 0, bitmapAddr = 0x1008\<rparr>
          0x110 0x100 0x108) = True"
    by (simp add: nextIsPointer_def externalEight_def)
  then show ?thesis using h off_heap_is_never_pointer[OF h] by simp
qed

subsection \<open>The pointer-free test\<close>

text \<open>
  C6. \<open>pointerFree\<close> returns true exactly when \<open>bitmapAddr\<close> is nil and the bitmap is
  zero; when \<open>bitmapAddr\<close> is not nil it returns false. It takes no memory, so it
  cannot read the bitmap bytes of an external descriptor.
\<close>

theorem pointerFree_iff:
  "fst (pointerFree scanner) = (bitmapAddr scanner = 0 \<and> bitmap scanner = 0) \<and>
   (bitmapAddr scanner \<noteq> 0 \<longrightarrow> fst (pointerFree scanner) = False)"
  by (simp add: pointerFree_def)

theorem pointerFree_iff_witness:
  "bitmapAddr \<lparr>index = 0, size_w = 8, bitmap = 0, bitmapAddr = 0x1008 :: 64 word\<rparr> \<noteq> 0 \<and>
   fst (pointerFree \<lparr>index = 0, size_w = 8, bitmap = 0, bitmapAddr = 0x1008 :: 64 word\<rparr>) = False"
  using pointerFree_iff[of "\<lparr>index = 0, size_w = 8, bitmap = 0, bitmapAddr = 0x1008 :: 64 word\<rparr>"]
  by simp

subsection \<open>Cycling\<close>

text \<open>
  C7. For the scanner the decoder returns: after as many calls as its size, the
  cursor is what it was at the start; and the results of call \<open>i\<close> and call
  \<open>i + k * size\<close> are the same when the two calls are given the same word.
\<close>

theorem cursor_cycles:
  fixes rt :: "'a::len runtime"
  assumes "newGCObjectScanner rt block = Inr scanner"
  shows "(\<forall>ws. length ws = unat (size_w scanner) \<longrightarrow>
            index (snd (scanWords rt scanner ws)) = index scanner) \<and>
         (\<forall>ws i k. i + k * unat (size_w scanner) < length ws \<and>
            fst (ws ! i) = fst (ws ! (i + k * unat (size_w scanner))) \<longrightarrow>
            fst (scanWords rt scanner ws) ! i =
              fst (scanWords rt scanner ws) ! (i + k * unat (size_w scanner)))"
proof -
  let ?S = "unat (size_w scanner)"
  have i0: "index scanner = 0" by (rule decoded_index[OF assms])
  have cyc: "index (snd (scanWords rt scanner ws)) = index scanner" if "length ws = ?S" for ws
  proof (cases "size_w scanner = 0")
    case True
    then show ?thesis using that by (simp add: scanWords_snd)
  next
    case False
    then have "period scanner = ?S" by (simp add: period_def)
    then show ?thesis using that i0 by (simp add: scanWords_snd advance_pow_index[OF i0])
  qed
  have same: "(i + k * ?S) mod period scanner = i mod period scanner" for i k
    by (cases "size_w scanner = 0") (simp_all add: period_def)
  have rep: "fst (scanWords rt scanner ws) ! i = fst (scanWords rt scanner ws) ! (i + k * ?S)"
    if "i + k * ?S < length ws" "fst (ws ! i) = fst (ws ! (i + k * ?S))" for ws i k
  proof -
    have "i < length ws" using that(1) by simp
    then show ?thesis using that
      by (simp add: call_result[OF i0] same del: scanWords.simps)
  qed
  show ?thesis using cyc rep by blast
qed

theorem cursor_cycles_witness:
  "newGCObjectScanner scenarioB 0 = Inr \<lparr>index = 0, size_w = 3, bitmap = 5, bitmapAddr = 0\<rparr> \<and>
   index (snd (scanWords scenarioB \<lparr>index = 0, size_w = 3, bitmap = 5, bitmapAddr = 0\<rparr>
            [(0x110, 0x100, 0x108), (0x120, 0x100, 0x110), (0x130, 0x100, 0x118)])) = 0 \<and>
   fst (scanWords scenarioB \<lparr>index = 0, size_w = 3, bitmap = 5, bitmapAddr = 0\<rparr>
          [(0x110, 0x100, 0x108), (0x42, 0x100, 0x110), (0x130, 0x100, 0x118),
           (0x120, 0x100, 0x120), (0x42, 0x100, 0x128)]) ! 1 =
   fst (scanWords scenarioB \<lparr>index = 0, size_w = 3, bitmap = 5, bitmapAddr = 0\<rparr>
          [(0x110, 0x100, 0x108), (0x42, 0x100, 0x110), (0x130, 0x100, 0x118),
           (0x120, 0x100, 0x120), (0x42, 0x100, 0x128)]) ! 4"
proof -
  let ?B = "\<lparr>index = 0, size_w = 3, bitmap = 5, bitmapAddr = 0\<rparr> :: 64 gcObjectScanner"
  let ?ws3 = "[(0x110, 0x100, 0x108), (0x120, 0x100, 0x110), (0x130, 0x100, 0x118)]
                :: (64 word \<times> 64 word \<times> 64 word) list"
  let ?ws5 = "[(0x110, 0x100, 0x108), (0x42, 0x100, 0x110), (0x130, 0x100, 0x118),
           (0x120, 0x100, 0x120), (0x42, 0x100, 0x128)]
                :: (64 word \<times> 64 word \<times> 64 word) list"
  have h: "newGCObjectScanner scenarioB 0 = Inr ?B"
    by (simp add: newGCObjectScanner_def scenarioB_def sizeFieldBits_def)
  note t = cursor_cycles[OF h]
  have a: "index (snd (scanWords scenarioB ?B ?ws3)) = 0"
    using t[THEN conjunct1, rule_format, of ?ws3] by (simp del: scanWords.simps)
  have b: "fst (scanWords scenarioB ?B ?ws5) ! 1 = fst (scanWords scenarioB ?B ?ws5) ! 4"
    using t[THEN conjunct2, rule_format, of 1 1 ?ws5] by (simp del: scanWords.simps)
  show ?thesis using h a b by (simp only: simp_thms)
qed

subsection \<open>Failures\<close>

text \<open>
  C8, as stated, fails: on a native word of 64 bits the decoder panics, with
  \<open>gcAsserts\<close> on, on a block that is not its own head; the decoder faults reading the
  size word of an external descriptor that is not in mapped memory; and a call of
  \<open>nextIsPointer\<close> faults reading a bitmap byte that is not in mapped memory.
\<close>

theorem scanner_failure_counterexample:
  "newGCObjectScanner_mem allMapped assertingRuntime 1 = Inl (Panic ScannerNotAtHead) \<and>
   LENGTH(64) \<in> {16, 32, 64} \<and>
   newGCObjectScanner_mem heapOnly externalEight 0 = Inl MemoryFault \<and>
   nextIsPointer_mem heapOnly externalEight
       \<lparr>index = 0, size_w = 8, bitmap = 0, bitmapAddr = 0x1008\<rparr> 0x110 0x100 0x108 =
     Inl MemoryFault"
proof -
  have a: "newGCObjectScanner_mem allMapped assertingRuntime 1 = Inl (Panic ScannerNotAtHead)"
    by (simp add: newGCObjectScanner_mem_def assertingRuntime_def)
  have b: "newGCObjectScanner_mem heapOnly externalEight 0 = Inl MemoryFault"
    by (simp add: newGCObjectScanner_mem_def read_uintptr_def readable_def heapOnly_def
        externalEight_def upt_conv_Cons)
  have c: "nextIsPointer_mem heapOnly externalEight
       \<lparr>index = 0, size_w = 8, bitmap = 0, bitmapAddr = 0x1008\<rparr> 0x110 0x100 0x108 =
     Inl MemoryFault"
    by (simp add: nextIsPointer_mem_def read_uint8_def readable_def heapOnly_def
        externalEight_def)
  show ?thesis using a b c by simp
qed

text \<open>
  C8, amended. Every failure of the scanner ends the process, and the failures are
  exactly these. The decoder fails: with \<open>gcAsserts\<close> on, on a block that is not its
  own head; otherwise with a memory fault when the layout word cannot be read;
  otherwise on an odd layout word when the native word is not of 16, 32 or 64 bits;
  and on an even layout word other than \<open>0\<close> with a memory fault when the size word at
  that address cannot be read. \<open>nextIsPointer\<close> fails only with a memory fault, when
  the word is on the heap, the scanner has an external descriptor and the bitmap byte
  of the cursor cannot be read.
\<close>

theorem scanner_failures_iff:
  fixes rt :: "'a::len runtime"
  shows "(newGCObjectScanner_mem mapped rt block = Inl f) =
     (gcAsserts rt \<and> block \<noteq> findHead rt block \<and> f = Panic ScannerNotAtHead \<or>
      \<not> (gcAsserts rt \<and> block \<noteq> findHead rt block) \<and>
        (\<not> readable mapped (address rt block) (LENGTH('a) div 8) \<and> f = MemoryFault \<or>
         readable mapped (address rt block) (LENGTH('a) div 8) \<and>
           (odd (load_uintptr rt (address rt block)) \<and>
              LENGTH('a) \<notin> {16, 32, 64} \<and> f = Panic UnknownPointerSize \<or>
            even (load_uintptr rt (address rt block)) \<and>
              load_uintptr rt (address rt block) \<noteq> 0 \<and>
              \<not> readable mapped (load_uintptr rt (address rt block)) (LENGTH('a) div 8) \<and>
              f = MemoryFault))) \<and>
   (nextIsPointer_mem mapped rt scanner word parent addrOfWord = Inl f) =
     (isOnHeap rt word \<and> bitmapAddr scanner \<noteq> 0 \<and>
      \<not> readable mapped (bitmapAddr scanner + index scanner div 8) 1 \<and> f = MemoryFault)"
proof -
  let ?v = "load_uintptr rt (address rt block)"
  let ?w = "LENGTH('a) div 8"
  have classify: "(nextIsPointer_mem mapped rt scanner word parent addrOfWord = Inl f) =
     (isOnHeap rt word \<and> bitmapAddr scanner \<noteq> 0 \<and>
      \<not> readable mapped (bitmapAddr scanner + index scanner div 8) 1 \<and> f = MemoryFault)"
    by (auto simp: nextIsPointer_mem_eq)
  have decode: "(newGCObjectScanner_mem mapped rt block = Inl f) =
     (gcAsserts rt \<and> block \<noteq> findHead rt block \<and> f = Panic ScannerNotAtHead \<or>
      \<not> (gcAsserts rt \<and> block \<noteq> findHead rt block) \<and>
        (\<not> readable mapped (address rt block) ?w \<and> f = MemoryFault \<or>
         readable mapped (address rt block) ?w \<and>
           (odd ?v \<and> LENGTH('a) \<notin> {16, 32, 64} \<and> f = Panic UnknownPointerSize \<or>
            even ?v \<and> ?v \<noteq> 0 \<and> \<not> readable mapped ?v ?w \<and> f = MemoryFault)))"
  proof (cases "gcAsserts rt \<and> block \<noteq> findHead rt block")
    case True
    then show ?thesis by (auto simp: newGCObjectScanner_mem_def)
  next
    case na: False
    show ?thesis
    proof (cases "readable mapped (address rt block) ?w")
      case False
      then show ?thesis using na by (auto simp: newGCObjectScanner_mem_def read_uintptr_def)
    next
      case rd: True
      then have rv: "read_uintptr mapped rt (address rt block) = Inr ?v"
        by (simp add: read_uintptr_def)
      consider (unknown) "?v = 0" | (inline) "odd ?v" | (external) "even ?v" "?v \<noteq> 0" by blast
      then show ?thesis
      proof cases
        case unknown
        then show ?thesis using na rd rv by (auto simp: newGCObjectScanner_mem_def)
      next
        case inline
        then have nz: "?v \<noteq> 0" "?v AND 1 \<noteq> 0" by (auto simp: odd_iff_and_one)
        show ?thesis
        proof (cases "sizeFieldBits LENGTH('a)")
          case None
          then have "newGCObjectScanner_mem mapped rt block = Inl (Panic UnknownPointerSize)"
            using na rv nz by (simp add: newGCObjectScanner_mem_def)
          then show ?thesis using na rd inline None by (auto simp: sizeFieldBits_None)
        next
          case (Some s)
          then have "LENGTH('a) \<in> {16, 32, 64}" by (auto simp: sizeFieldBits_widths)
          moreover have "\<exists>sc. newGCObjectScanner_mem mapped rt block = Inr sc"
            using na rv nz Some by (simp add: newGCObjectScanner_mem_def)
          ultimately show ?thesis using na rd inline by auto
        qed
      next
        case external
        show ?thesis
          using decode_mem_external[OF na rv external] na rd external by auto
      qed
    qed
  qed
  show ?thesis using decode classify by (rule conjI)
qed

theorem scanner_failures_iff_witness:
  "newGCObjectScanner_mem allMapped eightBitRuntime 1 = Inl (Panic UnknownPointerSize) \<and>
   newGCObjectScanner_mem heapOnly sizeZeroLayout 16 = Inl MemoryFault \<and>
   nextIsPointer_mem heapOnly scenarioA
       \<lparr>index = 3, size_w = 8, bitmap = 0, bitmapAddr = 0x200\<rparr> 0x110 0x100 0x108 =
     Inl MemoryFault"
proof -
  note t = scanner_failures_iff[where mapped = allMapped and rt = eightBitRuntime and block = 1
      and f = "Panic UnknownPointerSize", THEN conjunct1]
  have a: "newGCObjectScanner_mem allMapped eightBitRuntime 1 = Inl (Panic UnknownPointerSize)"
    unfolding t by (simp add: eightBitRuntime_def readable_def allMapped_def)
  note u = scanner_failures_iff[where mapped = heapOnly and rt = sizeZeroLayout and block = 16
      and f = MemoryFault, THEN conjunct1]
  have b: "newGCObjectScanner_mem heapOnly sizeZeroLayout 16 = Inl MemoryFault"
    unfolding u by (simp add: sizeZeroLayout_def readable_def heapOnly_def upt_conv_Cons)
  note v = scanner_failures_iff[where mapped = heapOnly and rt = scenarioA
      and scanner = "\<lparr>index = 3, size_w = 8, bitmap = 0, bitmapAddr = 0x200\<rparr>"
      and word = "0x110" and parent = "0x100" and addrOfWord = "0x108" and f = MemoryFault,
      THEN conjunct2]
  have c: "nextIsPointer_mem heapOnly scenarioA
       \<lparr>index = 3, size_w = 8, bitmap = 0, bitmapAddr = 0x200\<rparr> 0x110 0x100 0x108 =
     Inl MemoryFault"
    unfolding v by (simp add: scenarioA_def readable_def heapOnly_def)
  show ?thesis using a b c by simp
qed

subsection \<open>What a call reads and writes\<close>

text \<open>
  C9. The result of \<open>nextIsPointer\<close> and the scanner after the call do not depend on
  the arguments \<open>parent\<close> and \<open>addrOfWord\<close>.
\<close>

theorem nextIsPointer_ignores_parent_and_address:
  "nextIsPointer rt scanner word parent addrOfWord =
     nextIsPointer rt scanner word parent' addrOfWord'"
  by (simp add: nextIsPointer_def)

text \<open>
  C10. A call of \<open>nextIsPointer\<close> changes at most the field \<open>index\<close> of the scanner:
  \<open>size\<close>, \<open>bitmap\<close> and \<open>bitmapAddr\<close> are as before. \<open>pointerFree\<close> leaves the whole
  scanner as it was.
\<close>

theorem scanner_frame:
  "snd (nextIsPointer rt scanner word parent addrOfWord) =
     scanner\<lparr>index := index (snd (nextIsPointer rt scanner word parent addrOfWord))\<rparr> \<and>
   size_w (snd (nextIsPointer rt scanner word parent addrOfWord)) = size_w scanner \<and>
   bitmap (snd (nextIsPointer rt scanner word parent addrOfWord)) = bitmap scanner \<and>
   bitmapAddr (snd (nextIsPointer rt scanner word parent addrOfWord)) = bitmapAddr scanner \<and>
   snd (pointerFree scanner) = scanner"
  by (simp add: nextIsPointer_snd advance_def pointerFree_def)

end
